theory Spec2Isabelle
  imports Main
begin

section \<open>Python string primitives\<close>

text \<open>
  The SQL texts handled by the scripts are modelled as \<^typ>\<open>string\<close>, one \<^typ>\<open>char\<close> per
  code point.  The character tests below are those of Python's \<open>str\<close> methods on the ASCII
  range, which is the range the model covers; a character above 127 is treated as neither
  letter, digit nor white space and is left alone by \<open>lower\<close> and \<open>upper\<close>.
\<close>

definition code :: "char \<Rightarrow> nat" where
  "code c = of_char c"

definition isupper_c :: "char \<Rightarrow> bool" where
  "isupper_c c = (65 \<le> code c \<and> code c \<le> 90)"

definition islower_c :: "char \<Rightarrow> bool" where
  "islower_c c = (97 \<le> code c \<and> code c \<le> 122)"

definition isdigit :: "char \<Rightarrow> bool" where
  "isdigit c = (48 \<le> code c \<and> code c \<le> 57)"

definition isalnum :: "char \<Rightarrow> bool" where
  "isalnum c = (isupper_c c \<or> islower_c c \<or> isdigit c)"

text \<open>The characters of a word (\<open>\w\<close> in a regular expression) and of an identifier:
  letters, digits and the underscore.\<close>

definition is_word_char :: "char \<Rightarrow> bool" where
  "is_word_char c = (isalnum c \<or> c = CHR ''_'')"

text \<open>\<open>str.isspace\<close>: tab, line feed, vertical tab, form feed, carriage return, the four
  separators 28 to 31, and the blank.\<close>

definition isspace :: "char \<Rightarrow> bool" where
  "isspace c = ((9 \<le> code c \<and> code c \<le> 13) \<or> (28 \<le> code c \<and> code c \<le> 32))"

definition lower_c :: "char \<Rightarrow> char" where
  "lower_c c = (if isupper_c c then char_of (code c + 32) else c)"

definition upper_c :: "char \<Rightarrow> char" where
  "upper_c c = (if islower_c c then char_of (code c - 32) else c)"

definition lower :: "string \<Rightarrow> string" where
  "lower s = map lower_c s"

definition upper :: "string \<Rightarrow> string" where
  "upper s = map upper_c s"

text \<open>\<open>s[i:j]\<close> for \<open>0 \<le> i \<le> j\<close>: the slice is clipped at the end of \<open>s\<close>.\<close>

definition slice :: "'a list \<Rightarrow> nat \<Rightarrow> nat \<Rightarrow> 'a list" where
  "slice s i j = take (j - i) (drop i s)"

text \<open>\<open>s.strip()\<close>.\<close>

definition lstrip :: "string \<Rightarrow> string" where
  "lstrip s = dropWhile isspace s"

definition rstrip :: "string \<Rightarrow> string" where
  "rstrip s = rev (dropWhile isspace (rev s))"

definition strip :: "string \<Rightarrow> string" where
  "strip s = rstrip (lstrip s)"

text \<open>\<open>sep.join(parts)\<close>.\<close>

fun join :: "string \<Rightarrow> string list \<Rightarrow> string" where
  "join sep [] = []"
| "join sep [p] = p"
| "join sep (p # q # ps) = p @ sep @ join sep (q # ps)"


section \<open>\<open>generate_enhanced_mapping.py\<close>: \<open>split_by_comma_respecting_case\<close>\<close>

text \<open>The local variables of the function; the counters are Python integers.\<close>

record sstate =
  expressions :: "string list"
  current :: string
  depth :: int
  paren_depth :: int

definition init :: sstate where
  "init = \<lparr>expressions = [], current = [], depth = 0, paren_depth = 0\<rparr>"

text \<open>The two keyword tests of the loop body at index \<open>i\<close> (lines 119 to 127).\<close>

definition case_here :: "string \<Rightarrow> nat \<Rightarrow> bool" where
  "case_here text i =
     (i + 4 \<le> length text \<and> lower (slice text i (i + 4)) = ''case'' \<and>
      (i = 0 \<or> \<not> isalnum (text ! (i - 1))) \<and>
      (i + 4 \<ge> length text \<or> \<not> isalnum (text ! (i + 4))))"

definition end_here :: "string \<Rightarrow> nat \<Rightarrow> bool" where
  "end_here text i =
     (i + 3 \<le> length text \<and> lower (slice text i (i + 3)) = ''end'' \<and>
      (i = 0 \<or> \<not> isalnum (text ! (i - 1))) \<and>
      (i + 3 \<ge> length text \<or> \<not> isalnum (text ! (i + 3))))"

text \<open>One pass through the body of the \<open>while\<close> loop, at an index \<open>i < len(text)\<close>.\<close>

definition step :: "string \<Rightarrow> nat \<Rightarrow> sstate \<Rightarrow> sstate" where
  "step text i st =
     (let char = text ! i;
          d1 = (if case_here text i then depth st + 1 else depth st);
          d2 = (if end_here text i then max 0 (d1 - 1) else d1);
          p = (if char = CHR ''('' then paren_depth st + 1
               else if char = CHR '')'' then max 0 (paren_depth st - 1)
               else paren_depth st)
      in if char = CHR '','' \<and> d2 = 0 \<and> p = 0
         then \<lparr>expressions = expressions st @ [current st], current = [],
               depth = d2, paren_depth = p\<rparr>
         else \<lparr>expressions = expressions st, current = current st @ [char],
               depth = d2, paren_depth = p\<rparr>)"

text \<open>\<open>scan text i\<close> is the state at the head of the loop when the loop variable is \<open>i\<close>:
  the loop starts at \<open>0\<close>, adds one per pass and stops at \<open>len(text)\<close>.\<close>

primrec scan :: "string \<Rightarrow> nat \<Rightarrow> sstate" where
  "scan text 0 = init"
| "scan text (Suc i) = step text i (scan text i)"

definition split_by_comma_respecting_case :: "string \<Rightarrow> string list" where
  "split_by_comma_respecting_case text =
     (let st = scan text (length text)
      in if strip (current st) \<noteq> [] then expressions st @ [current st]
         else expressions st)"

text \<open>The split test of the loop at a comma reads the counters the pass started with (no
  keyword starts at a comma and a comma is no parenthesis): \<open>counters_zero text i\<close> says that
  the loop's own counters are both zero on reaching index \<open>i\<close>.\<close>

definition counters_zero :: "string \<Rightarrow> nat \<Rightarrow> bool" where
  "counters_zero text i = (depth (scan text i) = 0 \<and> paren_depth (scan text i) = 0)"


text \<open>The value of \<open>current\<close> when the loop is left: the text accumulated after the last
  comma that split.\<close>

definition last_segment :: "string \<Rightarrow> string" where
  "last_segment text = current (scan text (length text))"


section \<open>\<open>generate_mapping_doc.py\<close>: \<open>DbtModelAnalyzer._split_by_comma\<close>\<close>








section \<open>The top level of a text, as the specification words it\<close>

text \<open>
  This section is written from the specification (Depth Tracker, Top-Level Splitter and
  glossary), not from the code.  A keyword is recognised only at word boundaries, so that it
  is never matched inside an identifier such as \<open>CASE_ID\<close>, \<open>CASE_TYPE\<close> or \<open>ENDDATE\<close>: the
  characters of an identifier are the letters, the digits and the underscore.
\<close>

definition keyword_at :: "string \<Rightarrow> string \<Rightarrow> nat \<Rightarrow> bool" where
  "keyword_at kw text i =
     (lower (slice text i (i + length kw)) = kw \<and>
      (i = 0 \<or> \<not> is_word_char (text ! (i - 1))) \<and>
      (length text \<le> i + length kw \<or> \<not> is_word_char (text ! (i + length kw))))"

text \<open>\<open>tracker text i\<close> is the pair \<open>(parenDepth, caseDepth)\<close> after scanning left to right up
  to and excluding position \<open>i\<close>: an opening parenthesis adds one to \<open>parenDepth\<close>, a closing
  one subtracts one, floored at zero; the keyword \<open>CASE\<close> adds one to \<open>caseDepth\<close> and the
  keyword \<open>END\<close> subtracts one, floored at zero.  A keyword is counted where it starts.\<close>

definition track :: "string \<Rightarrow> nat \<Rightarrow> int \<times> int \<Rightarrow> int \<times> int" where
  "track text i pc =
     (let p = fst pc; c = snd pc; ch = text ! i
      in (if ch = CHR ''('' then p + 1 else if ch = CHR '')'' then max 0 (p - 1) else p,
          if keyword_at ''case'' text i then c + 1
          else if keyword_at ''end'' text i then max 0 (c - 1)
          else c))"

primrec tracker :: "string \<Rightarrow> nat \<Rightarrow> int \<times> int" where
  "tracker text 0 = (0, 0)"
| "tracker text (Suc i) = track text i (tracker text i)"

text \<open>A position is at top level iff both counters are zero there.  The top-level commas
  are the commas at top level, the nested commas are all the other commas, and the final
  segment is the text after the last top-level comma (the whole text when there is none).\<close>

definition top_level :: "string \<Rightarrow> nat \<Rightarrow> bool" where
  "top_level text i = (tracker text i = (0, 0))"

definition top_level_commas :: "string \<Rightarrow> nat list" where
  "top_level_commas text =
     filter (\<lambda>i. text ! i = CHR '','' \<and> top_level text i) [0..<length text]"

definition nested_commas :: "string \<Rightarrow> nat list" where
  "nested_commas text =
     filter (\<lambda>i. text ! i = CHR '','' \<and> \<not> top_level text i) [0..<length text]"

definition segment_start :: "nat list \<Rightarrow> nat" where
  "segment_start cs = (if cs = [] then 0 else Suc (last cs))"

definition final_segment :: "string \<Rightarrow> string" where
  "final_segment text = drop (segment_start (top_level_commas text)) text"

text \<open>The texts on which the boundary test of the code (\<open>isalnum\<close>) and the word boundary of
  the specification say the same: no run of the letters \<open>CASE\<close> or \<open>END\<close>, in any letter
  case, has an underscore as a neighbour.\<close>

definition underscore_beside :: "string \<Rightarrow> nat \<Rightarrow> nat \<Rightarrow> bool" where
  "underscore_beside text i n =
     ((0 < i \<and> text ! (i - 1) = CHR ''_'') \<or>
      (i + n < length text \<and> text ! (i + n) = CHR ''_''))"

definition keywords_clear_of_underscore :: "string \<Rightarrow> bool" where
  "keywords_clear_of_underscore text =
     list_all (\<lambda>i. (lower (slice text i (i + 4)) = ''case'' \<longrightarrow> \<not> underscore_beside text i 4) \<and>
                   (lower (slice text i (i + 3)) = ''end'' \<longrightarrow> \<not> underscore_beside text i 3))
       [0..<length text]"


section \<open>Where the two splitters are compared\<close>





section \<open>More Python string methods\<close>

text \<open>\<open>s.split()\<close>: the maximal runs of characters that are not white space.\<close>

fun words_from :: "string \<Rightarrow> string \<Rightarrow> string list" where
  "words_from w [] = (if w = [] then [] else [w])"
| "words_from w (x # xs) =
     (if isspace x then (if w = [] then words_from [] xs else w # words_from [] xs)
      else words_from (w @ [x]) xs)"

definition split_ws :: "string \<Rightarrow> string list" where
  "split_ws s = words_from [] s"

text \<open>\<open>' '.join(s.split())\<close>, the white-space normalisation used by both scripts.\<close>

definition collapse :: "string \<Rightarrow> string" where
  "collapse s = join '' '' (split_ws s)"

text \<open>\<open>s.split(c)\<close> for a one-character separator.\<close>

fun pieces_from :: "char \<Rightarrow> string \<Rightarrow> string \<Rightarrow> string list" where
  "pieces_from c w [] = [w]"
| "pieces_from c w (x # xs) =
     (if x = c then w # pieces_from c [] xs else pieces_from c (w @ [x]) xs)"

definition split_char :: "char \<Rightarrow> string \<Rightarrow> string list" where
  "split_char c s = pieces_from c [] s"

definition startswith :: "string \<Rightarrow> string \<Rightarrow> bool" where
  "startswith s p = (take (length p) s = p)"

text \<open>\<open>sub in s\<close>.\<close>

fun contains :: "string \<Rightarrow> string \<Rightarrow> bool" where
  "contains sub [] = (sub = [])"
| "contains sub (x # xs) = (take (length sub) (x # xs) = sub \<or> contains sub xs)"

definition newline :: char where
  "newline = CHR 0x0A"

definition squote :: char where
  "squote = CHR 0x27"

definition dquote :: char where
  "dquote = CHR 0x22"


section \<open>The regular expressions of the scripts\<close>

text \<open>
  The scripts use Python's \<open>re\<close> on patterns made of single characters, character classes,
  repetitions of one class (greedy or lazy), capture groups that are not nested, an optional
  group, \<open>^\<close>, \<open>$\<close> and \<open>\b\<close>.  A pattern is a list of atoms and is matched the way \<open>re\<close>
  does it, by backtracking: the leftmost start that matches, and there the first match in
  the order of preference of the repetitions.
\<close>

datatype cclass =
    Ch char   \<comment> \<open>the character itself\<close>
  | ChI char  \<comment> \<open>the character, under \<open>re.IGNORECASE\<close>\<close>
  | Any       \<comment> \<open>\<open>.\<close> under \<open>re.DOTALL\<close>\<close>
  | Dot       \<comment> \<open>\<open>.\<close> without \<open>re.DOTALL\<close>: anything but a line feed\<close>
  | Space     \<comment> \<open>\<open>\s\<close>\<close>
  | Digit     \<comment> \<open>\<open>\d\<close>\<close>
  | Word      \<comment> \<open>\<open>\w\<close> and \<open>[a-zA-Z0-9_]\<close>\<close>
  | Letter    \<comment> \<open>\<open>[a-zA-Z_]\<close>\<close>
  | Not char  \<comment> \<open>\<open>[^c]\<close>\<close>

fun cmatch :: "cclass \<Rightarrow> char \<Rightarrow> bool" where
  "cmatch (Ch a) c = (c = a)"
| "cmatch (ChI a) c = (lower_c c = lower_c a)"
| "cmatch Any c = True"
| "cmatch Dot c = (c \<noteq> newline)"
| "cmatch Space c = isspace c"
| "cmatch Digit c = isdigit c"
| "cmatch Word c = is_word_char c"
| "cmatch Letter c = (is_word_char c \<and> \<not> isdigit c)"
| "cmatch (Not a) c = (c \<noteq> a)"

text \<open>\<open>Rep c n g\<close> is \<open>n\<close> or more characters of class \<open>c\<close>, greedy when \<open>g\<close> holds and lazy
  otherwise (\<open>c*\<close>, \<open>c+\<close>, \<open>c*?\<close>, \<open>c+?\<close>).  \<open>Open\<close> and \<open>Close\<close> delimit a capture group.
  \<open>Skip k n\<close> makes the next \<open>k\<close> atoms, which hold \<open>n\<close> capture groups, an optional group
  \<open>(...)?\<close>: it is tried first, and left out when the match fails with it.\<close>

datatype atom =
    One cclass
  | Rep cclass nat bool
  | Open
  | Close
  | Bol
  | Eol
  | WordB
  | Skip nat nat

type_synonym groups = "string option list"

text \<open>\<open>\b\<close>, between the previous character (if any) and the rest of the text.\<close>

fun word_boundary :: "char option \<Rightarrow> string \<Rightarrow> bool" where
  "word_boundary None [] = False"
| "word_boundary None (x # xs) = is_word_char x"
| "word_boundary (Some p) [] = is_word_char p"
| "word_boundary (Some p) (x # xs) = (is_word_char p \<noteq> is_word_char x)"

fun grow :: "string option \<Rightarrow> char \<Rightarrow> string option" where
  "grow None x = None"
| "grow (Some g) x = Some (g @ [x])"

text \<open>\<open>rmatch p prev pos cur gs s\<close> matches the atoms \<open>p\<close> against \<open>s\<close>, the text from position
  \<open>pos\<close> on; \<open>prev\<close> is the character before it, \<open>cur\<close> the text of the group that is open and
  \<open>gs\<close> the groups closed so far.  The result is the end of the match and its groups.\<close>

fun rmatch :: "atom list \<Rightarrow> char option \<Rightarrow> nat \<Rightarrow> string option \<Rightarrow> groups \<Rightarrow> string
    \<Rightarrow> (nat \<times> groups) option"
and rep :: "cclass \<Rightarrow> nat \<Rightarrow> bool \<Rightarrow> atom list \<Rightarrow> char option \<Rightarrow> nat \<Rightarrow> string option
    \<Rightarrow> groups \<Rightarrow> string \<Rightarrow> (nat \<times> groups) option"
where
  "rmatch [] prev pos cur gs s = Some (pos, gs)"
| "rmatch (One c # as) prev pos cur gs [] = None"
| "rmatch (One c # as) prev pos cur gs (x # xs) =
     (if cmatch c x then rmatch as (Some x) (Suc pos) (grow cur x) gs xs else None)"
| "rmatch (Rep c n g # as) prev pos cur gs s = rep c n g as prev pos cur gs s"
| "rmatch (Open # as) prev pos cur gs s = rmatch as prev pos (Some []) gs s"
| "rmatch (Close # as) prev pos cur gs s = rmatch as prev pos None (gs @ [cur]) s"
| "rmatch (Bol # as) prev pos cur gs s =
     (if pos = 0 then rmatch as prev pos cur gs s else None)"
| "rmatch (Eol # as) prev pos cur gs s =
     (if s = [] \<or> s = [newline] then rmatch as prev pos cur gs s else None)"
| "rmatch (WordB # as) prev pos cur gs s =
     (if word_boundary prev s then rmatch as prev pos cur gs s else None)"
| "rmatch (Skip k n # as) prev pos cur gs s =
     (case rmatch as prev pos cur gs s of
        Some r \<Rightarrow> Some r
      | None \<Rightarrow> rmatch (drop k as) prev pos cur (gs @ replicate n None) s)"
| "rep c (Suc n) g as prev pos cur gs [] = None"
| "rep c (Suc n) g as prev pos cur gs (x # xs) =
     (if cmatch c x then rep c n g as (Some x) (Suc pos) (grow cur x) gs xs else None)"
| "rep c 0 True as prev pos cur gs [] = rmatch as prev pos cur gs []"
| "rep c 0 True as prev pos cur gs (x # xs) =
     (if cmatch c x then
        (case rep c 0 True as (Some x) (Suc pos) (grow cur x) gs xs of
           Some r \<Rightarrow> Some r
         | None \<Rightarrow> rmatch as prev pos cur gs (x # xs))
      else rmatch as prev pos cur gs (x # xs))"
| "rep c 0 False as prev pos cur gs [] = rmatch as prev pos cur gs []"
| "rep c 0 False as prev pos cur gs (x # xs) =
     (case rmatch as prev pos cur gs (x # xs) of
        Some r \<Rightarrow> Some r
      | None \<Rightarrow> (if cmatch c x then rep c 0 False as (Some x) (Suc pos) (grow cur x) gs xs
                 else None))"

text \<open>A match object: where the match starts and ends, and its groups.\<close>

record rematch =
  m_start :: nat
  m_end :: nat
  m_groups :: groups

definition found :: "nat \<Rightarrow> nat \<times> groups \<Rightarrow> rematch" where
  "found pos r = \<lparr>m_start = pos, m_end = fst r, m_groups = snd r\<rparr>"

text \<open>\<open>m.group(k)\<close>; in the patterns below every group that is read takes part in every
  match.\<close>

definition group :: "rematch \<Rightarrow> nat \<Rightarrow> string" where
  "group m k = (case m_groups m ! (k - 1) of Some g \<Rightarrow> g | None \<Rightarrow> [])"

text \<open>The leftmost match at or after \<open>pos\<close>, where \<open>s\<close> is the text from \<open>pos\<close> on.\<close>

fun search_from :: "atom list \<Rightarrow> char option \<Rightarrow> nat \<Rightarrow> string \<Rightarrow> rematch option" where
  "search_from p prev pos [] = map_option (found pos) (rmatch p prev pos None [] [])"
| "search_from p prev pos (x # xs) =
     (case rmatch p prev pos None [] (x # xs) of
        Some r \<Rightarrow> Some (found pos r)
      | None \<Rightarrow> search_from p (Some x) (Suc pos) xs)"

definition re_search :: "atom list \<Rightarrow> string \<Rightarrow> rematch option" where
  "re_search p s = search_from p None 0 s"

text \<open>\<open>re.finditer\<close>: the matches that do not overlap, from left to right; the search goes on
  where the last match ended.  (No pattern of the scripts matches the empty text; after an
  empty match the search here moves on by one character.)\<close>

function finditer_from :: "atom list \<Rightarrow> char option \<Rightarrow> nat \<Rightarrow> string \<Rightarrow> rematch list" where
  "finditer_from p prev pos s =
     (case search_from p prev pos s of
        None \<Rightarrow> []
      | Some m \<Rightarrow>
          (if s = [] then [m]
           else m # finditer_from p (Some (s ! (max 1 (m_end m - pos) - 1)))
                      (pos + max 1 (m_end m - pos)) (drop (max 1 (m_end m - pos)) s)))"
  by pat_completeness auto

termination
  by (relation "measure (\<lambda>(p, prev, pos, s). length s)") auto

declare finditer_from.simps [simp del]

definition re_finditer :: "atom list \<Rightarrow> string \<Rightarrow> rematch list" where
  "re_finditer p s = finditer_from p None 0 s"

text \<open>\<open>re.sub(p, repl, s)\<close> with a constant replacement: the text between the matches is
  kept.  \<open>splice repl pos s ms\<close> works on \<open>s\<close>, the text from \<open>pos\<close> on.\<close>

fun splice :: "string \<Rightarrow> nat \<Rightarrow> string \<Rightarrow> rematch list \<Rightarrow> string" where
  "splice repl pos s [] = s"
| "splice repl pos s (m # ms) =
     take (m_start m - pos) s @ repl @ splice repl (m_end m) (drop (m_end m - pos) s) ms"

definition re_sub :: "atom list \<Rightarrow> string \<Rightarrow> string \<Rightarrow> string" where
  "re_sub p repl s = splice repl 0 s (re_finditer p s)"

text \<open>A word of the pattern, letter by letter, under \<open>re.IGNORECASE\<close> and without it.\<close>

definition word_i :: "string \<Rightarrow> atom list" where
  "word_i w = map (\<lambda>c. One (ChI c)) w"

definition word_s :: "string \<Rightarrow> atom list" where
  "word_s w = map (\<lambda>c. One (Ch c)) w"

section \<open>\<open>generate_enhanced_mapping.py\<close>: the column parser\<close>

text \<open>A dictionary keeps its keys in the order of their first insertion; assigning to a key
  that is present replaces its value in place.\<close>

fun dict_set :: "'k \<Rightarrow> 'v \<Rightarrow> ('k \<times> 'v) list \<Rightarrow> ('k \<times> 'v) list" where
  "dict_set k v [] = [(k, v)]"
| "dict_set k v (e # es) = (if fst e = k then (k, v) # es else e # dict_set k v es)"

text \<open>The value stored for a column (lines 99 to 103).\<close>

record column =
  expression :: string
  source_column :: string
  is_case :: bool

text \<open>\<open>(\w+)\.(\w+)\<close>\<close>

definition source_pattern :: "atom list" where
  "source_pattern =
     [Open, Rep Word 1 True, Close, One (Ch CHR ''.''), Open, Rep Word 1 True, Close]"

definition extract_source_column :: "string \<Rightarrow> string" where
  "extract_source_column e =
     (case re_search source_pattern e of
        Some m \<Rightarrow> group m 1 @ ''.'' @ group m 2
      | None \<Rightarrow> [])"

text \<open>\<open>^(.*?)\s+as\s+(\w+)\s*$\<close> with \<open>re.IGNORECASE | re.DOTALL\<close>\<close>

definition as_pattern :: "atom list" where
  "as_pattern =
     [Bol, Open, Rep Any 0 False, Close, Rep Space 1 True] @ word_i ''as'' @
     [Rep Space 1 True, Open, Rep Word 1 True, Close, Rep Space 0 True, Eol]"

definition make_column :: "string \<Rightarrow> column" where
  "make_column e =
     \<lparr>expression = e, source_column = extract_source_column e,
      is_case = contains ''case'' (lower e)\<rparr>"

text \<open>The body of the loop over the expressions (lines 85 to 103): the key and the value
  the pass stores, or \<open>None\<close> when it stores nothing.\<close>

definition parse_column :: "string \<Rightarrow> (string \<times> column) option" where
  "parse_column expr0 =
     (let expr = strip expr0
      in if expr = [] then None
         else (case re_search as_pattern expr of
                 None \<Rightarrow> None
               | Some m \<Rightarrow>
                   Some (upper (strip (group m 2)), make_column (collapse (strip (group m 1))))))"

definition store :: "(string \<times> column) list \<Rightarrow> string \<Rightarrow> (string \<times> column) list" where
  "store columns expr =
     (case parse_column expr of
        None \<Rightarrow> columns
      | Some kv \<Rightarrow> dict_set (fst kv) (snd kv) columns)"

text \<open>\<open>--.*?\n\<close>, and \<open>{%.*?%}\<close> with \<open>re.DOTALL\<close>\<close>

definition comment_pattern :: "atom list" where
  "comment_pattern = word_s ''--'' @ [Rep Dot 0 False, One (Ch newline)]"

definition jinja_pattern :: "atom list" where
  "jinja_pattern = word_s ''{%'' @ [Rep Any 0 False] @ word_s ''%}''"

definition parse_select_columns :: "string \<Rightarrow> (string \<times> column) list" where
  "parse_select_columns select_clause =
     foldl store []
       (split_by_comma_respecting_case
          (re_sub jinja_pattern '' [jinja_template] ''
             (re_sub comment_pattern [newline] select_clause)))"


section \<open>\<open>generate_enhanced_mapping.py\<close>: \<open>parse_final_select_enhanced\<close>\<close>

text \<open>\<open>final\s+as\s*\((.*?)\)\s*select\s+\*\s+from\s+final\<close> with
  \<open>re.DOTALL | re.IGNORECASE\<close>\<close>

definition final_pattern :: "atom list" where
  "final_pattern =
     word_i ''final'' @ [Rep Space 1 True] @ word_i ''as'' @
     [Rep Space 0 True, One (Ch CHR ''(''), Open, Rep Any 0 False, Close, One (Ch CHR '')''),
      Rep Space 0 True] @ word_i ''select'' @
     [Rep Space 1 True, One (Ch CHR ''*''), Rep Space 1 True] @ word_i ''from'' @
     [Rep Space 1 True] @ word_i ''final''"

definition is_select_line :: "string \<Rightarrow> bool" where
  "is_select_line line = startswith (lower (strip line)) ''select''"

definition is_from_line :: "string \<Rightarrow> bool" where
  "is_from_line line = startswith (lower (strip line)) ''from''"

text \<open>The loop over the lines (lines 52 to 58), from line number \<open>i\<close> on with the current
  value of \<open>select_start\<close>; the result is \<open>(select_start, from_line)\<close>, and \<open>from_line\<close>
  is still \<open>-1\<close> when the loop ends without \<open>break\<close>.\<close>

fun line_loop :: "string list \<Rightarrow> int \<Rightarrow> int \<Rightarrow> int \<times> int" where
  "line_loop [] i select_start = (select_start, - 1)"
| "line_loop (line # ls) i select_start =
     (if is_select_line line then line_loop ls (i + 1) i
      else if select_start \<ge> 0 \<and> is_from_line line then (select_start, i)
      else line_loop ls (i + 1) select_start)"

definition select_clause_of :: "string list \<Rightarrow> int \<times> int \<Rightarrow> string option" where
  "select_clause_of lines sf =
     (if fst sf < 0 \<or> snd sf < 0 then None
      else Some (join [newline] (slice lines (nat (fst sf + 1)) (nat (snd sf)))))"

text \<open>The function returns the dictionary of columns and nothing else; it prints nothing
  and raises nothing of its own.\<close>

definition parse_final_select_enhanced :: "string \<Rightarrow> (string \<times> column) list" where
  "parse_final_select_enhanced sql_content =
     (case re_search final_pattern sql_content of
        None \<Rightarrow> []
      | Some m \<Rightarrow>
          (case select_clause_of (split_char newline (group m 1))
                  (line_loop (split_char newline (group m 1)) 0 (- 1)) of
             None \<Rightarrow> []
           | Some select_clause \<Rightarrow> parse_select_columns select_clause))"


section \<open>\<open>generate_enhanced_mapping.py\<close>: \<open>extract_case_logic\<close>\<close>

text \<open>The dictionary \<open>case_logic\<close>; a condition is the pair of its \<open>when\<close> and its \<open>then\<close>.\<close>

record case_logic =
  conditions :: "(string \<times> string) list"
  else_value :: "string option"

text \<open>\<open>when\s+(.*?)\s+then\s+\<close> followed by the pattern of the value, with
  \<open>re.IGNORECASE | re.DOTALL\<close>.\<close>

definition when_then :: "atom list \<Rightarrow> atom list" where
  "when_then v =
     word_i ''when'' @ [Rep Space 1 True, Open, Rep Any 0 False, Close, Rep Space 1 True] @
     word_i ''then'' @ [Rep Space 1 True] @ v"

text \<open>The value patterns \<open>'([^']*)'\<close>, \<open>"([^"]*)"\<close>, \<open>(\d+)\<close> and \<open>(\w+)\<close>.\<close>

definition quoted :: "char \<Rightarrow> atom list" where
  "quoted q = [One (Ch q), Open, Rep (Not q) 0 True, Close, One (Ch q)]"

definition digits :: "atom list" where
  "digits = [Open, Rep Digit 1 True, Close]"

definition bare_word :: "atom list" where
  "bare_word = [Open, Rep Word 1 True, Close]"

text \<open>The list \<open>when_patterns\<close> (lines 168 to 174), in its order.\<close>

definition when_patterns :: "atom list list" where
  "when_patterns =
     [when_then (quoted squote), when_then (quoted dquote), when_then digits,
      when_then (quoted squote), when_then bare_word]"

text \<open>The list \<open>else_patterns\<close> (lines 192 to 197), with \<open>re.IGNORECASE\<close>.\<close>

definition else_then :: "atom list \<Rightarrow> atom list" where
  "else_then v = word_i ''else'' @ [Rep Space 1 True] @ v"

definition else_patterns :: "atom list list" where
  "else_patterns =
     [else_then (quoted squote), else_then (quoted dquote), else_then digits,
      else_then bare_word]"

text \<open>The body of the inner loop (lines 179 to 189).\<close>

definition add_condition :: "(string \<times> string) list \<Rightarrow> rematch \<Rightarrow> (string \<times> string) list" where
  "add_condition cs m =
     (if collapse (strip (group m 1)) \<noteq> [] \<and> strip (group m 2) \<noteq> []
      then cs @ [(collapse (strip (group m 1)), strip (group m 2))]
      else cs)"

definition add_pattern :: "string \<Rightarrow> (string \<times> string) list \<Rightarrow> atom list \<Rightarrow> (string \<times> string) list" where
  "add_pattern e cs p = foldl add_condition cs (re_finditer p e)"

text \<open>The loop over \<open>else_patterns\<close> with its \<open>break\<close>.\<close>

fun first_else :: "string \<Rightarrow> atom list list \<Rightarrow> string option" where
  "first_else e [] = None"
| "first_else e (p # ps) =
     (case re_search p e of
        Some m \<Rightarrow> Some (strip (group m 1))
      | None \<Rightarrow> first_else e ps)"

definition extract_case_logic :: "string \<Rightarrow> case_logic option" where
  "extract_case_logic e =
     (if \<not> contains ''case'' (lower e) then None
      else Some \<lparr>conditions = foldl (add_pattern e) [] when_patterns,
                 else_value = first_else e else_patterns\<rparr>)"


section \<open>\<open>generate_mapping_doc.py\<close>: the column parser of \<open>DbtModelAnalyzer\<close>\<close>

text \<open>\<open>\b([a-zA-Z_][a-zA-Z0-9_]*\.)?([a-zA-Z_][a-zA-Z0-9_]*)\b\<close>\<close>

definition column_pattern :: "atom list" where
  "column_pattern =
     [WordB, Skip 5 1, Open, One Letter, Rep Word 0 True, One (Ch CHR ''.''), Close,
      Open, One Letter, Rep Word 0 True, Close, WordB]"

definition sql_keywords :: "string list" where
  "sql_keywords =
     [''SELECT'', ''FROM'', ''WHERE'', ''AND'', ''OR'', ''AS'', ''CASE'', ''WHEN'',
      ''THEN'', ''ELSE'', ''END'', ''NULL'', ''TRUE'', ''FALSE'', ''IN'', ''NOT'',
      ''IS'', ''LIKE'', ''BETWEEN'', ''EXISTS'', ''ALL'', ''ANY'']"

text \<open>The list \<open>columns\<close> built by the loop of \<open>_extract_source_columns\<close> (lines 252 to 259):
  for each match its second group, in upper case, unless that is a keyword.\<close>

definition source_names :: "string \<Rightarrow> string list" where
  "source_names transformation =
     filter (\<lambda>col. col \<notin> set sql_keywords)
       (map (\<lambda>m. upper (group m 2)) (re_finditer column_pattern transformation))"

text \<open>\<open>list(set(columns))\<close>: the order of the result is not specified.\<close>

definition extract_source_columns :: "string \<Rightarrow> string set" where
  "extract_source_columns transformation = set (source_names transformation)"

text \<open>\<open>(.+?)\s+(?:as\s+)?(\w+)$\<close> with \<open>re.IGNORECASE\<close>\<close>

definition alias_pattern :: "atom list" where
  "alias_pattern =
     [Open, Rep Dot 1 False, Close, Rep Space 1 True, Skip 3 0] @ word_i ''as'' @
     [Rep Space 1 True, Open, Rep Word 1 True, Close, Eol]"

record analyzer_column =
  column_name :: string
  transformation :: string
  source_columns :: "string set"

definition make_analyzer_column :: "string \<Rightarrow> string \<Rightarrow> analyzer_column" where
  "make_analyzer_column name t =
     \<lparr>column_name = upper name, transformation = t,
      source_columns = extract_source_columns t\<rparr>"

text \<open>The body of the loop of \<open>_parse_select_columns\<close> (lines 172 to 196).\<close>

definition analyzer_parse_column :: "string \<Rightarrow> analyzer_column option" where
  "analyzer_parse_column col_str0 =
     (let col_str = strip col_str0
      in if col_str = [] then None
         else (case re_search alias_pattern col_str of
                 Some m \<Rightarrow> Some (make_analyzer_column (strip (group m 2)) (strip (group m 1)))
               | None \<Rightarrow>
                   Some (make_analyzer_column (strip (last (split_char CHR ''.'' col_str)))
                           col_str)))"

section \<open>Properties of the splitter of \<open>generate_enhanced_mapping.py\<close>\<close>

lemma lower_c_is_c: "lower_c c = CHR ''c'' \<Longrightarrow> c \<noteq> CHR '',''"
  by (auto simp: lower_c_def isupper_c_def code_def)

lemma lower_c_is_e: "lower_c c = CHR ''e'' \<Longrightarrow> c \<noteq> CHR '',''"
  by (auto simp: lower_c_def isupper_c_def code_def)

lemma slice_Cons:
  "i < length s \<Longrightarrow> slice s i (i + Suc k) = s ! i # slice s (Suc i) (Suc i + k)"
  by (simp add: slice_def Cons_nth_drop_Suc [symmetric])

lemma case_here_not_comma: "case_here text i \<Longrightarrow> text ! i \<noteq> CHR '',''"
proof -
  assume h: "case_here text i"
  then have len: "i < length text" and lw: "lower (slice text i (i + 4)) = ''case''"
    by (auto simp: case_here_def)
  from len have "slice text i (i + 4) = text ! i # slice text (Suc i) (Suc i + 3)"
    using slice_Cons [of i "text" 3] by simp
  with lw have "lower_c (text ! i) = CHR ''c''" by (simp add: lower_def)
  then show ?thesis by (rule lower_c_is_c)
qed

lemma end_here_not_comma: "end_here text i \<Longrightarrow> text ! i \<noteq> CHR '',''"
proof -
  assume h: "end_here text i"
  then have len: "i < length text" and lw: "lower (slice text i (i + 3)) = ''end''"
    by (auto simp: end_here_def)
  from len have "slice text i (i + 3) = text ! i # slice text (Suc i) (Suc i + 2)"
    using slice_Cons [of i "text" 2] by simp
  with lw have "lower_c (text ! i) = CHR ''e''" by (simp add: lower_def)
  then show ?thesis by (rule lower_c_is_e)
qed

text \<open>Both counters of \<open>split_by_comma_respecting_case\<close> stay at or above zero.\<close>

lemma scan_nonneg: "0 \<le> depth (scan text i) \<and> 0 \<le> paren_depth (scan text i)"
  by (induction i) (auto simp: init_def step_def Let_def)

text \<open>At a comma neither keyword test fires and no parenthesis is counted, so the counters
  tested are those the pass started with.\<close>

lemma step_comma:
  assumes "text ! i = CHR '',''"
  shows "step text i st =
    (if depth st = 0 \<and> paren_depth st = 0
     then st\<lparr>expressions := expressions st @ [current st], current := []\<rparr>
     else st\<lparr>current := current st @ [CHR '','']\<rparr>)"
  using assms case_here_not_comma [of "text" i] end_here_not_comma [of "text" i]
  by (auto simp: step_def Let_def)

lemma step_not_comma:
  assumes "text ! i \<noteq> CHR '',''"
  shows "expressions (step text i st) = expressions st"
    and "current (step text i st) = current st @ [text ! i]"
  using assms by (auto simp: step_def Let_def)

lemma expressions_count:
  "length (expressions (scan text n)) =
   length (filter (\<lambda>i. text ! i = CHR '','' \<and> counters_zero text i) [0..<n])"
proof (induction n)
  case 0
  show ?case by (simp add: init_def)
next
  case (Suc n)
  show ?case
  proof (cases "text ! n = CHR '',''")
    case True
    then show ?thesis using Suc by (simp add: step_comma counters_zero_def)
  next
    case False
    then show ?thesis using Suc by (simp add: step_not_comma)
  qed
qed

lemma join_snoc_char: "join sep (xs @ [a @ [c]]) = join sep (xs @ [a]) @ [c]"
  by (induction sep xs rule: join.induct) auto

lemma join_snoc_new: "join sep (xs @ [a] @ [[]]) = join sep (xs @ [a]) @ sep"
  by (induction sep xs rule: join.induct) auto

text \<open>Loop invariant: the closed expressions and the open one, joined by commas, are the
  text read so far.\<close>

lemma join_scan:
  "n \<le> length text \<Longrightarrow>
   join '','' (expressions (scan text n) @ [current (scan text n)]) = take n text"
proof (induction n)
  case 0
  show ?case by (simp add: init_def)
next
  case (Suc n)
  then have ih: "join '','' (expressions (scan text n) @ [current (scan text n)]) = take n text"
    and lt: "n < length text" by simp_all
  show ?case
  proof (cases "text ! n = CHR '',''")
    case True
    show ?thesis
    proof (cases "depth (scan text n) = 0 \<and> paren_depth (scan text n) = 0")
      case t: True
      with True lt ih show ?thesis
        using join_snoc_new [of "'',''" "expressions (scan text n)" "current (scan text n)"]
        by (simp add: step_comma take_Suc_conv_app_nth)
    next
      case f: False
      with True lt ih show ?thesis
        using join_snoc_char [of "'',''" "expressions (scan text n)" "current (scan text n)"
            "CHR '',''"]
        by (auto simp: step_comma take_Suc_conv_app_nth)
    qed
  next
    case False
    with lt ih show ?thesis
      using join_snoc_char [of "'',''" "expressions (scan text n)" "current (scan text n)"
          "text ! n"]
      by (simp add: step_not_comma take_Suc_conv_app_nth)
  qed
qed


section \<open>The two splitters side by side\<close>

lemma code_less: "code x < 256"
  by (simp add: code_def)

lemma code_char_of: "n < 256 \<Longrightarrow> code (char_of n) = n"
  by (simp add: code_def)

lemma code_inj: "(code x = code y) = (x = y)"
  by (simp add: code_def)

lemma upper_c_eq: "(upper_c x = y) = (if islower_c x then code x = code y + 32 else x = y)"
proof (cases "islower_c x")
  case True
  then have r: "97 \<le> code x" "code x \<le> 122" by (auto simp: islower_c_def)
  have "(upper_c x = y) = (code (upper_c x) = code y)" by (simp add: code_inj)
  also have "code (upper_c x) = code x - 32" using True r by (simp add: upper_c_def code_char_of)
  finally show ?thesis using True r by auto
next
  case False
  then show ?thesis by (simp add: upper_c_def)
qed

lemma lower_c_eq: "(lower_c x = y) = (if isupper_c x then code y = code x + 32 else x = y)"
proof (cases "isupper_c x")
  case True
  then have r: "65 \<le> code x" "code x \<le> 90" by (auto simp: isupper_c_def)
  have "(lower_c x = y) = (code (lower_c x) = code y)" by (simp add: code_inj)
  also have "code (lower_c x) = code x + 32" using True r by (simp add: lower_c_def code_char_of)
  finally show ?thesis using True r by auto
next
  case False
  then show ?thesis by (simp add: lower_c_def)
qed

lemma code_lower_c: "isupper_c y \<Longrightarrow> code (lower_c y) = code y + 32"
  by (auto simp: lower_c_def isupper_c_def code_char_of)

lemma code_upper_c: "islower_c y \<Longrightarrow> code (upper_c y) = code y - 32"
  by (auto simp: upper_c_def islower_c_def code_char_of)

lemma upper_c_letter: "isupper_c y \<Longrightarrow> (upper_c x = y) = (x = y \<or> x = lower_c y)"
proof -
  assume u: "isupper_c y"
  then have c: "code (lower_c y) = code y + 32" by (rule code_lower_c)
  have "(x = lower_c y) = (code x = code y + 32)"
    using c by (simp add: code_inj [symmetric])
  then show ?thesis using u
    by (auto simp: upper_c_eq islower_c_def isupper_c_def)
qed

lemma lower_c_letter: "islower_c y \<Longrightarrow> (lower_c x = y) = (x = y \<or> x = upper_c y)"
proof -
  assume u: "islower_c y"
  then have c: "code (upper_c y) = code y - 32" by (rule code_upper_c)
  have "(x = upper_c y) = (code x = code y - 32)"
    using c by (simp add: code_inj [symmetric])
  then show ?thesis using u
    by (auto simp: lower_c_eq islower_c_def isupper_c_def)
qed

text \<open>On letters, comparing the lower-cased text with a lower-case word is comparing the
  upper-cased text with the upper-case word.\<close>

lemma lower_upper_c: "islower_c y \<Longrightarrow> (lower_c x = y) = (upper_c x = upper_c y)"
proof -
  assume l: "islower_c y"
  then have u: "isupper_c (upper_c y)"
    by (auto simp: isupper_c_def islower_c_def code_upper_c)
  have "lower_c (upper_c y) = y" using l u
    by (auto simp: lower_c_eq code_upper_c islower_c_def)
  then show ?thesis using lower_c_letter [OF l, of x] upper_c_letter [OF u, of x] by auto
qed

lemma lower_case_iff: "(lower s = ''case'') = (upper s = ''CASE'')"
proof -
  have l: "islower_c CHR ''c''" "islower_c CHR ''a''" "islower_c CHR ''s''" "islower_c CHR ''e''"
    by code_simp+
  have u: "upper_c CHR ''c'' = CHR ''C''" "upper_c CHR ''a'' = CHR ''A''"
    "upper_c CHR ''s'' = CHR ''S''" "upper_c CHR ''e'' = CHR ''E''"
    by code_simp+
  show ?thesis
    using l u by (auto simp: lower_def upper_def lower_upper_c)
qed

lemma lower_end_iff: "(lower s = ''end'') = (upper s = ''END'')"
proof -
  have l: "islower_c CHR ''e''" "islower_c CHR ''n''" "islower_c CHR ''d''"
    by code_simp+
  have u: "upper_c CHR ''e'' = CHR ''E''" "upper_c CHR ''n'' = CHR ''N''"
    "upper_c CHR ''d'' = CHR ''D''"
    by code_simp+
  show ?thesis
    using l u by (auto simp: lower_def upper_def lower_upper_c)
qed


lemma upper_slice4:
  assumes "upper (slice text i (i + 4)) = [a, b, c, d]"
  shows "i + 4 \<le> length text" "upper_c (text ! i) = a" "upper_c (text ! (i + 1)) = b"
    "upper_c (text ! (i + 2)) = c" "upper_c (text ! (i + 3)) = d"
proof -
  from assms have "length (upper (slice text i (i + 4))) = 4" by simp
  then have "length (slice text i (i + 4)) = 4" by (simp add: upper_def)
  then show len: "i + 4 \<le> length text" by (simp add: slice_def)
  have n: "\<And>k. k < 4 \<Longrightarrow> upper (slice text i (i + 4)) ! k = upper_c (text ! (i + k))"
    using len by (simp add: upper_def slice_def)
  show "upper_c (text ! i) = a" using n [of 0] assms by simp
  show "upper_c (text ! (i + 1)) = b" using n [of 1] assms by simp
  show "upper_c (text ! (i + 2)) = c" using n [of 2] assms by simp
  show "upper_c (text ! (i + 3)) = d" using n [of 3] assms by simp
qed

lemma upper_slice3:
  assumes "upper (slice text i (i + 3)) = [a, b, c]"
  shows "i + 3 \<le> length text" "upper_c (text ! i) = a" "upper_c (text ! (i + 1)) = b"
    "upper_c (text ! (i + 2)) = c"
proof -
  from assms have "length (upper (slice text i (i + 3))) = 3" by simp
  then have "length (slice text i (i + 3)) = 3" by (simp add: upper_def)
  then show len: "i + 3 \<le> length text" by (simp add: slice_def)
  have n: "\<And>k. k < 3 \<Longrightarrow> upper (slice text i (i + 3)) ! k = upper_c (text ! (i + k))"
    using len by (simp add: upper_def slice_def)
  show "upper_c (text ! i) = a" using n [of 0] assms by simp
  show "upper_c (text ! (i + 1)) = b" using n [of 1] assms by simp
  show "upper_c (text ! (i + 2)) = c" using n [of 2] assms by simp
qed


lemma case_here_first: "case_here text i \<Longrightarrow> upper_c (text ! i) = CHR ''C''"
proof -
  assume "case_here text i"
  then have "upper (slice text i (i + 4)) = ''CASE''"
    by (simp add: case_here_def lower_case_iff)
  then show ?thesis by (rule upper_slice4(2))
qed

lemma end_here_first: "end_here text i \<Longrightarrow> upper_c (text ! i) = CHR ''E''"
proof -
  assume "end_here text i"
  then have "upper (slice text i (i + 3)) = ''END''"
    by (simp add: end_here_def lower_end_iff)
  then show ?thesis by (rule upper_slice3(2))
qed













section \<open>The loop of \<open>split_by_comma_respecting_case\<close> against the tracker of the specification\<close>

lemma keyword_at_case:
  "keyword_at ''case'' text i =
     (lower (slice text i (i + 4)) = ''case'' \<and>
      (i = 0 \<or> \<not> is_word_char (text ! (i - 1))) \<and>
      (length text \<le> i + 4 \<or> \<not> is_word_char (text ! (i + 4))))"
  unfolding keyword_at_def by (simp add: eval_nat_numeral)

lemma keyword_at_end:
  "keyword_at ''end'' text i =
     (lower (slice text i (i + 3)) = ''end'' \<and>
      (i = 0 \<or> \<not> is_word_char (text ! (i - 1))) \<and>
      (length text \<le> i + 3 \<or> \<not> is_word_char (text ! (i + 3))))"
  unfolding keyword_at_def by (simp add: eval_nat_numeral)

lemma keyword_case: 
  assumes "keywords_clear_of_underscore text" "i < length text"
  shows "keyword_at ''case'' text i = case_here text i"
proof (cases "lower (slice text i (i + 4)) = ''case''")
  case False
  then show ?thesis by (simp add: keyword_at_case case_here_def)
next
  case True
  then have "length (lower (slice text i (i + 4))) = 4" by simp
  then have len: "i + 4 \<le> length text" by (simp add: lower_def slice_def)
  from assms True have "\<not> underscore_beside text i 4"
    by (auto simp: keywords_clear_of_underscore_def list_all_iff)
  then show ?thesis using True len
    by (auto simp: keyword_at_case case_here_def underscore_beside_def is_word_char_def)
qed

lemma keyword_end: 
  assumes "keywords_clear_of_underscore text" "i < length text"
  shows "keyword_at ''end'' text i = end_here text i"
proof (cases "lower (slice text i (i + 3)) = ''end''")
  case False
  then show ?thesis by (simp add: keyword_at_end end_here_def)
next
  case True
  then have "length (lower (slice text i (i + 3))) = 3" by simp
  then have len: "i + 3 \<le> length text" by (simp add: lower_def slice_def)
  from assms True have "\<not> underscore_beside text i 3"
    by (auto simp: keywords_clear_of_underscore_def list_all_iff)
  then show ?thesis using True len
    by (auto simp: keyword_at_end end_here_def underscore_beside_def is_word_char_def)
qed

lemma case_not_end: "case_here text i \<Longrightarrow> \<not> end_here text i"
  using case_here_first [of "text" i] end_here_first [of "text" i] by auto

lemma tracker_scan:
  assumes "keywords_clear_of_underscore text"
  shows "n \<le> length text \<Longrightarrow> tracker text n = (paren_depth (scan text n), depth (scan text n))"
proof (induction n)
  case 0
  show ?case by (simp add: init_def)
next
  case (Suc n)
  then have ih: "tracker text n = (paren_depth (scan text n), depth (scan text n))"
    and lt: "n < length text" by simp_all
  show ?case
    using ih keyword_case [OF assms lt] keyword_end [OF assms lt] case_not_end [of "text" n]
    by (auto simp: step_def track_def Let_def)
qed


lemma counters_zero_top_level:
  assumes "keywords_clear_of_underscore text" "i \<le> length text"
  shows "counters_zero text i = top_level text i"
  using tracker_scan [OF assms] by (auto simp: counters_zero_def top_level_def)

lemma splitting_commas:
  assumes "keywords_clear_of_underscore text" "n \<le> length text"
  shows "filter (\<lambda>i. text ! i = CHR '','' \<and> counters_zero text i) [0..<n] =
         filter (\<lambda>i. text ! i = CHR '','' \<and> top_level text i) [0..<n]"
  using assms by (intro filter_cong) (auto simp: counters_zero_top_level)

lemma segment_start_le:
  "segment_start (filter P [0..<n]) \<le> n"
proof (cases "filter P [0..<n] = []")
  case True
  then show ?thesis by (simp add: segment_start_def)
next
  case False
  then have "last (filter P [0..<n]) \<in> set (filter P [0..<n])" by (rule last_in_set)
  then show ?thesis using False by (auto simp: segment_start_def)
qed

text \<open>Loop invariant: \<open>current\<close> is the text read since the last comma that split.\<close>

lemma current_scan:
  "n \<le> length text \<Longrightarrow>
   current (scan text n) =
   drop (segment_start (filter (\<lambda>i. text ! i = CHR '','' \<and> counters_zero text i) [0..<n]))
     (take n text)"
proof (induction n)
  case 0
  show ?case by (simp add: init_def)
next
  case (Suc n)
  let ?cs = "filter (\<lambda>i. text ! i = CHR '','' \<and> counters_zero text i) [0..<n]"
  from Suc have ih: "current (scan text n) = drop (segment_start ?cs) (take n text)"
    and lt: "n < length text" by simp_all
  have le: "segment_start ?cs \<le> n" by (rule segment_start_le)
  show ?case
  proof (cases "text ! n = CHR '','' \<and> counters_zero text n")
    case True
    then show ?thesis using lt
      by (simp add: step_comma counters_zero_def segment_start_def)
  next
    case False
    then have "current (scan text (Suc n)) = current (scan text n) @ [text ! n]"
      by (cases "text ! n = CHR '',''") (auto simp: step_comma step_not_comma counters_zero_def)
    then show ?thesis using False ih lt le
      by (auto simp: take_Suc_conv_app_nth)
  qed
qed


section \<open>Claims on the top-level splitter\<close>

text \<open>
  C1, as stated, at the text \<open>a,\<close>: it has one top-level comma and no nested one, and the
  splitter returns one expression, not two, because the blank final segment is dropped.
\<close>

theorem split_count_trailing_comma:
  "length (top_level_commas ''a,'') = 1 \<and> length (nested_commas ''a,'') = 0 \<and>
   length (split_by_comma_respecting_case ''a,'') = 1"
  by code_simp

text \<open>
  C1, amended: for every text in which no \<open>CASE\<close> or \<open>END\<close> letter run has an underscore as a
  neighbour, with \<open>N\<close> top-level commas (in the sense of the specification) and any number of
  nested ones, \<open>split_by_comma_respecting_case\<close> returns \<open>N + 1\<close> expressions when the text
  after the last top-level comma holds a non-white-space character and \<open>N\<close> expressions when
  it is empty or blank; the commas nested in parentheses or in \<open>CASE...END\<close> never add to the
  count.
\<close>

theorem split_count:
  assumes "keywords_clear_of_underscore text"
  shows "length (split_by_comma_respecting_case text) =
   length (top_level_commas text) + (if strip (final_segment text) = [] then 0 else 1)"
proof -
  have c: "filter (\<lambda>i. text ! i = CHR '','' \<and> counters_zero text i) [0..<length text] =
      top_level_commas text"
    using splitting_commas [OF assms, of "length text"] by (simp add: top_level_commas_def)
  have "current (scan text (length text)) = final_segment text"
    using current_scan [of "length text" "text"] c by (simp add: final_segment_def)
  then show ?thesis
    using expressions_count [of "text" "length text"] c
    by (simp add: split_by_comma_respecting_case_def Let_def)
qed

theorem split_count_witness:
  "length (top_level_commas ''f(a,b),case x,y end'') = 1 \<and>
   length (nested_commas ''f(a,b),case x,y end'') = 2 \<and>
   length (split_by_comma_respecting_case ''f(a,b),case x,y end'') = 2"
proof -
  have k: "keywords_clear_of_underscore ''f(a,b),case x,y end''"
    by code_simp
  have n: "length (top_level_commas ''f(a,b),case x,y end'') = 1"
    by code_simp
  have m: "length (nested_commas ''f(a,b),case x,y end'') = 2"
    by code_simp
  have l: "strip (final_segment ''f(a,b),case x,y end'') \<noteq> []"
    by code_simp
  show ?thesis
    using split_count [OF k] n m l by simp
qed

text \<open>
  C10: when the final segment holds a non-white-space character, joining the expressions
  returned by \<open>split_by_comma_respecting_case\<close> with single commas gives back the text.
\<close>

theorem split_join:
  "strip (last_segment text) \<noteq> [] \<Longrightarrow>
   join '','' (split_by_comma_respecting_case text) = text"
  using join_scan [of "length text" "text"]
  by (simp add: split_by_comma_respecting_case_def Let_def last_segment_def)

theorem split_join_witness:
  "strip (last_segment ''a, f(b, c) as y'') \<noteq> [] \<and>
   join '','' (split_by_comma_respecting_case ''a, f(b, c) as y'') = ''a, f(b, c) as y''"
proof -
  have l: "strip (last_segment ''a, f(b, c) as y'') \<noteq> []"
    by code_simp
  show ?thesis using split_join [OF l] l by simp
qed







end
